theory Spec2Isabelle
  imports Complex_Main "HOL-Library.Multiset"
begin

section \<open>Data model\<close>

text \<open>
  A Python \<^verbatim>\<open>str\<close> is a sequence of Unicode code points, and \<^verbatim>\<open>max_length\<close> counts
  code points, so a string is modelled as the list of its code points (of Unicode scalar
  values: a string with a lone surrogate is no valid request text and is outside the
  model). Python integers are unbounded and are modelled by \<^typ>\<open>int\<close>; where the
  database confines them to 64 bits, the bound is written out. A \<^verbatim>\<open>datetime\<close> is an
  opaque point on the server clock.
\<close>

type_synonym py_str = "nat list"
type_synonym datetime = int

text \<open>The literal \<^verbatim>\<open>"Player"\<close>, the default of \<^verbatim>\<open>player_name\<close> in both
  \<^verbatim>\<open>schemas.py\<close> and \<^verbatim>\<open>models.py\<close>.\<close>

definition Player :: py_str where
  "Player = [80, 108, 97, 121, 101, 114]"

text \<open>\<^verbatim>\<open>models.py\<close>, class \<^verbatim>\<open>Score\<close>: one row of the table \<^verbatim>\<open>scores\<close>. Every column is
  \<^verbatim>\<open>nullable=False\<close>, so a stored row has a value in every field.\<close>

record Score =
  score_id :: int
  player_name :: py_str
  score :: int
  snake_length :: int
  duration_seconds :: int
  created_at :: datetime

text \<open>\<^verbatim>\<open>schemas.py\<close>, class \<^verbatim>\<open>ScoreCreate\<close>: a validated creation request.
  \<^verbatim>\<open>player_name\<close> is \<^verbatim>\<open>Optional[str]\<close>, so \<^verbatim>\<open>None\<close> is a legal value of it.\<close>

record ScoreCreate =
  sc_score :: int
  sc_snake_length :: int
  sc_duration_seconds :: int
  sc_player_name :: "py_str option"

text \<open>\<^verbatim>\<open>schemas.py\<close>, classes \<^verbatim>\<open>LeaderboardEntry\<close> and \<^verbatim>\<open>StatsResponse\<close>.
  \<^verbatim>\<open>LeaderboardResponse\<close> has the single field \<^verbatim>\<open>entries\<close> and is modelled by the list
  itself.\<close>

record LeaderboardEntry =
  rank :: int
  le_player_name :: py_str
  le_score :: int
  le_created_at :: datetime

type_synonym LeaderboardResponse = "LeaderboardEntry list"

record StatsResponse =
  total_games :: int
  best_score :: int
  average_score :: rat
  total_play_time_seconds :: int
  longest_snake :: int

section \<open>Request validation\<close>

text \<open>
  The body of \<^verbatim>\<open>POST /api/scores\<close> after JSON decoding: every field may be left out,
  and \<^verbatim>\<open>player_name\<close> may also be the JSON \<^verbatim>\<open>null\<close>. Values of the wrong JSON type are
  outside this model.
\<close>

datatype json_name = Omitted | Null | Str py_str

record request =
  r_score :: "int option"
  r_snake_length :: "int option"
  r_duration_seconds :: "int option"
  r_player_name :: json_name

text \<open>One entry of a validation error: the offending field and the kind of violation.\<close>

datatype err_type = missing | greater_than_equal int | string_too_long nat

type_synonym field_error = "string \<times> err_type"

text \<open>The checks declared by \<^verbatim>\<open>Field(...)\<close> in \<^verbatim>\<open>ScoreCreate\<close>, one function per field:
  \<^verbatim>\<open>ge\<close> with an optional default for the integer fields, \<^verbatim>\<open>max_length=100\<close> with the
  default \<^verbatim>\<open>"Player"\<close> for the name. There is no \<^verbatim>\<open>min_length\<close>.\<close>

definition check_int :: "string \<Rightarrow> int \<Rightarrow> int option \<Rightarrow> int option \<Rightarrow> field_error list + int" where
  "check_int field ge dflt v =
     (case v of
        None \<Rightarrow> (case dflt of None \<Rightarrow> Inl [(field, missing)] | Some d \<Rightarrow> Inr d)
      | Some x \<Rightarrow> if ge \<le> x then Inr x else Inl [(field, greater_than_equal ge)])"

definition check_player_name :: "json_name \<Rightarrow> field_error list + py_str option" where
  "check_player_name v =
     (case v of
        Omitted \<Rightarrow> Inr (Some Player)
      | Null \<Rightarrow> Inr None
      | Str s \<Rightarrow> if length s \<le> 100 then Inr (Some s)
                 else Inl [(''player_name'', string_too_long 100)])"

definition errors_of :: "field_error list + 'a \<Rightarrow> field_error list" where
  "errors_of r = (case r of Inl es \<Rightarrow> es | Inr _ \<Rightarrow> [])"

text \<open>Validation of the whole model: every field is checked, in declaration order, and all
  violations are reported together; the model instance exists only when there is none.\<close>

definition validate :: "request \<Rightarrow> field_error list + ScoreCreate" where
  "validate req =
     (let a = check_int ''score'' 0 None (r_score req);
          b = check_int ''snake_length'' 1 (Some 3) (r_snake_length req);
          c = check_int ''duration_seconds'' 0 (Some 0) (r_duration_seconds req);
          d = check_player_name (r_player_name req)
      in case (a, b, c, d) of
           (Inr s, Inr l, Inr t, Inr n) \<Rightarrow>
             Inr \<lparr>sc_score = s, sc_snake_length = l, sc_duration_seconds = t, sc_player_name = n\<rparr>
         | _ \<Rightarrow> Inl (errors_of a @ errors_of b @ errors_of c @ errors_of d))"

section \<open>The record store and the database session\<close>

text \<open>
  The table \<^verbatim>\<open>scores\<close> is the list of its rows in rowid order, which is insertion order:
  rows are only ever appended. A session (\<^verbatim>\<open>database.py\<close>, \<^verbatim>\<open>SessionLocal\<close>) sees the table
  and holds the objects added to it that are not written yet; \<^verbatim>\<open>autoflush\<close> is off, so
  only \<^verbatim>\<open>commit\<close> writes them. Such an object carries the four attributes taken from the
  request; its \<^verbatim>\<open>id\<close> and \<^verbatim>\<open>created_at\<close> are unset until the row is inserted.
\<close>

record Session =
  table :: "Score list"
  new :: "ScoreCreate list"

text \<open>What the environment decides during one request: the server clock, and whether the
  store fails (with the text of the exception) while writing or while reading back.\<close>

record Env =
  utcnow :: datetime
  commit_fault :: "py_str option"
  refresh_fault :: "py_str option"

text \<open>\<^verbatim>\<open>get_db\<close>: a fresh session for the request, closed when the request ends. Closing
  drops whatever was not committed.\<close>

definition get_db :: "Score list \<Rightarrow> Session" where
  "get_db t = \<lparr>table = t, new = []\<rparr>"

definition close :: "Session \<Rightarrow> Score list" where
  "close db = table db"

text \<open>The primary key of a new row: one more than the largest key in the table, 1 in an
  empty table.\<close>

definition next_id :: "Score list \<Rightarrow> int" where
  "next_id t = fold max (map score_id t) 0 + 1"

text \<open>The INSERT of one object. A \<^verbatim>\<open>None\<close> attribute is left out of the statement, so the
  column default \<^verbatim>\<open>"Player"\<close> applies; \<^verbatim>\<open>created_at\<close> takes its default
  \<^verbatim>\<open>datetime.utcnow\<close>.\<close>

definition insert_row :: "datetime \<Rightarrow> Score list \<Rightarrow> ScoreCreate \<Rightarrow> Score" where
  "insert_row now t obj =
     \<lparr>score_id = next_id t,
      player_name = (case sc_player_name obj of None \<Rightarrow> Player | Some n \<Rightarrow> n),
      score = sc_score obj,
      snake_length = sc_snake_length obj,
      duration_seconds = sc_duration_seconds obj,
      created_at = now\<rparr>"

fun flush :: "datetime \<Rightarrow> ScoreCreate list \<Rightarrow> Score list \<Rightarrow> Score list" where
  "flush now [] t = t"
| "flush now (obj # objs) t = flush now objs (t @ [insert_row now t obj])"

definition add :: "ScoreCreate \<Rightarrow> Session \<Rightarrow> Session" where
  "add obj db = db\<lparr>new := new db @ [obj]\<rparr>"

text \<open>\<^verbatim>\<open>db.commit()\<close>: either the store fails and nothing is written (the exception is
  returned on the left, the session still holding its objects), or every pending object
  becomes a row. The rows written are returned in the order of the objects: they are the
  state the objects have after the commit.\<close>

definition commit :: "Env \<Rightarrow> Session \<Rightarrow> (py_str + Score list) \<times> Session" where
  "commit env db =
     (case commit_fault env of
        Some e \<Rightarrow> (Inl e, db)
      | None \<Rightarrow>
          (let t = flush (utcnow env) (new db) (table db)
           in (Inr (drop (length (table db)) t), \<lparr>table = t, new = []\<rparr>)))"

definition rollback :: "Session \<Rightarrow> Session" where
  "rollback db = db\<lparr>new := []\<rparr>"

text \<open>\<^verbatim>\<open>db.refresh(obj)\<close>: the row of the object is read back by its primary key. The read
  can fail in the store, and it fails when no row has the key.\<close>

definition could_not_refresh :: py_str where
  "could_not_refresh =
     [67, 111, 117, 108, 100, 32, 110, 111, 116, 32, 114, 101, 102, 114, 101, 115, 104, 32,
      105, 110, 115, 116, 97, 110, 99, 101]"

definition refresh :: "Env \<Rightarrow> Score \<Rightarrow> Session \<Rightarrow> py_str + Score" where
  "refresh env obj db =
     (case refresh_fault env of
        Some e \<Rightarrow> Inl e
      | None \<Rightarrow>
          (case find (\<lambda>r. score_id r = score_id obj) (table db) of
             None \<Rightarrow> Inl could_not_refresh
           | Some r \<Rightarrow> Inr r))"

section \<open>Creating a score\<close>

text \<open>The exceptions that the database layer raises in the read handlers:
  \<^verbatim>\<open>OverflowError\<close> of the SQLite driver for a bound parameter that is no signed 64-bit
  integer, and \<^verbatim>\<open>OperationalError\<close> of the engine for an integer overflow in \<^verbatim>\<open>sum\<close>.\<close>

datatype exn = OverflowError | OperationalError

text \<open>What a caller can get instead of a result: the 422 answer of the framework for a body
  that fails validation, an \<^verbatim>\<open>HTTPException\<close> with its status code and detail, or the
  500 answer of the framework for an exception that no handler catches.\<close>

datatype error =
    RequestValidationError "field_error list"
  | HTTPException int py_str
  | InternalServerError exn

text \<open>The prefix of the detail of the 500 answer in \<^verbatim>\<open>create_score\<close> (a Russian sentence
  that says the result could not be saved, ending in a colon and a space), as code points.\<close>

definition detail_prefix :: py_str where
  "detail_prefix =
     [1053, 1077, 32, 1091, 1076, 1072, 1083, 1086, 1089, 1100, 32, 1089, 1086, 1093, 1088,
      1072, 1085, 1080, 1090, 1100, 32, 1088, 1077, 1079, 1091, 1083, 1100, 1090, 1072, 1090,
      58, 32]"

text \<open>\<^verbatim>\<open>routers/scores.py\<close>, \<^verbatim>\<open>create_score\<close>: the body of the \<^verbatim>\<open>try\<close>, and the
  \<^verbatim>\<open>except\<close> clause that rolls back and raises the 500 answer. \<^verbatim>\<open>db_score\<close> is the
  object added last, so after the commit it is the last row written.\<close>

definition create_score :: "Env \<Rightarrow> ScoreCreate \<Rightarrow> Session \<Rightarrow> (error + Score) \<times> Session" where
  "create_score env score_data db =
     (let db1 = add score_data db
      in case commit env db1 of
           (Inl e, db2) \<Rightarrow> (Inl (HTTPException 500 (detail_prefix @ e)), rollback db2)
         | (Inr rows, db2) \<Rightarrow>
             (case refresh env (last rows) db2 of
                Inl e \<Rightarrow> (Inl (HTTPException 500 (detail_prefix @ e)), rollback db2)
              | Inr db_score \<Rightarrow> (Inr db_score, db2)))"

text \<open>The endpoint \<^verbatim>\<open>POST /api/scores\<close> as the framework runs it: the body is validated
  against \<^verbatim>\<open>ScoreCreate\<close> first, and the handler runs, in a session of its own, only on a
  valid body.\<close>

definition post_scores :: "Env \<Rightarrow> request \<Rightarrow> Score list \<Rightarrow> (error + Score) \<times> Score list" where
  "post_scores env req t =
     (case validate req of
        Inl errs \<Rightarrow> (Inl (RequestValidationError errs), t)
      | Inr score_data \<Rightarrow>
          (let (res, db) = create_score env score_data (get_db t) in (res, close db)))"

section \<open>The leaderboard\<close>

text \<open>
  The query \<^verbatim>\<open>ORDER BY score DESC LIMIT limit\<close> on the SQLite store that \<^verbatim>\<open>database.py\<close>
  configures. SQLite scans the table in rowid order and sorts on the key (score descending,
  position in the scan), so rows with equal scores stay in rowid order: a stable sort. The
  limit is a bound parameter of the statement: the driver raises \<^verbatim>\<open>OverflowError\<close> for a
  Python integer outside the signed 64-bit range, and a negative \<^verbatim>\<open>LIMIT\<close> means no upper
  bound in SQLite.
\<close>

definition order_by_score_desc :: "Score list \<Rightarrow> Score list" where
  "order_by_score_desc rows = sort_key (\<lambda>r. - score r) rows"

definition sql_limit :: "int \<Rightarrow> 'a list \<Rightarrow> exn + 'a list" where
  "sql_limit n rows =
     (if n < - (2 ^ 63) \<or> 2 ^ 63 \<le> n then Inl OverflowError
      else if n < 0 then Inr rows
      else Inr (take (nat n) rows))"

text \<open>The ranking step: the list comprehension over \<^verbatim>\<open>enumerate(scores)\<close>.\<close>

definition rank_entries :: "Score list \<Rightarrow> LeaderboardEntry list" where
  "rank_entries scores =
     map (\<lambda>(index, s).
            \<lparr>rank = int index + 1,
             le_player_name = player_name s,
             le_score = score s,
             le_created_at = created_at s\<rparr>)
         (enumerate 0 scores)"

text \<open>\<^verbatim>\<open>routers/scores.py\<close>, \<^verbatim>\<open>get_leaderboard\<close>. There is no \<^verbatim>\<open>try\<close>: an exception of
  the query escapes the handler.\<close>

definition get_leaderboard ::
  "int \<Rightarrow> Session \<Rightarrow> (error + LeaderboardResponse) \<times> Session" where
  "get_leaderboard limit db =
     (case sql_limit limit (order_by_score_desc (table db)) of
        Inl e \<Rightarrow> (Inl (InternalServerError e), db)
      | Inr scores \<Rightarrow> (let entries = rank_entries scores in (Inr entries, db)))"

text \<open>The endpoint \<^verbatim>\<open>GET /api/leaderboard\<close>, in a session of its own.\<close>

definition get_leaderboard_endpoint ::
  "int \<Rightarrow> Score list \<Rightarrow> (error + LeaderboardResponse) \<times> Score list" where
  "get_leaderboard_endpoint limit t =
     (let (res, db) = get_leaderboard limit (get_db t) in (res, close db))"

section \<open>Statistics\<close>

subsection \<open>Floating point\<close>

text \<open>
  \<^verbatim>\<open>average_score\<close> is a Python \<^verbatim>\<open>float\<close>, an IEEE 754 binary64 number. Such a number is
  modelled by the rational it denotes. \<open>to_double\<close> rounds a rational to the nearest
  number with a 53-bit significand, ties to the even significand; the exponent range is
  not modelled (no overflow and no subnormal numbers arise from the averages of 64-bit
  integers). The conversion of a 64-bit integer to a float is this rounding.
\<close>

fun bit_length :: "nat \<Rightarrow> nat" where
  "bit_length n = (if n = 0 then 0 else 1 + bit_length (n div 2))"

declare bit_length.simps [simp del]

definition pow2 :: "int \<Rightarrow> rat" where
  "pow2 e = (if 0 \<le> e then 2 ^ nat e else 1 / 2 ^ nat (- e))"

text \<open>The exponent of a positive rational: the \<open>k\<close> with \<open>2 ^ k \<le> q < 2 ^ (k + 1)\<close>.\<close>

definition ilog2 :: "rat \<Rightarrow> int" where
  "ilog2 q =
     (let (p, d) = quotient_of q;
          k = int (bit_length (nat p)) - int (bit_length (nat d))
      in if pow2 k \<le> q then k else k - 1)"

definition round_half_even :: "rat \<Rightarrow> int" where
  "round_half_even x =
     (let f = \<lfloor>x\<rfloor>; r = x - of_int f
      in if r < 1 / 2 then f
         else if 1 / 2 < r then f + 1
         else if even f then f else f + 1)"

definition to_double :: "rat \<Rightarrow> rat" where
  "to_double q =
     (if q = 0 then 0
      else let e = ilog2 \<bar>q\<bar> - 52
           in sgn q * of_int (round_half_even (\<bar>q\<bar> / pow2 e)) * pow2 e)"

text \<open>Python's \<^verbatim>\<open>round(x, ndigits)\<close> on a float: the exact value of \<open>x\<close> is rounded to
  \<open>ndigits\<close> decimal places, ties to the even digit, and the decimal is converted back
  to the nearest float.\<close>

definition py_round :: "rat \<Rightarrow> nat \<Rightarrow> rat" where
  "py_round x ndigits =
     to_double (of_int (round_half_even (x * 10 ^ ndigits)) / 10 ^ ndigits)"

subsection \<open>Aggregates\<close>

text \<open>
  The scalar results of the aggregate queries. \<^verbatim>\<open>max\<close>, \<^verbatim>\<open>avg\<close> and \<^verbatim>\<open>sum\<close> are
  NULL (\<^verbatim>\<open>None\<close>) over no rows; \<^verbatim>\<open>count\<close> is 0 there.

  \<^verbatim>\<open>sum\<close> adds the integers of the column one by one in a signed 64-bit accumulator; when
  an addition leaves the 64-bit range the query fails with the error
  \<^verbatim>\<open>integer overflow\<close>.
\<close>

definition sql_count :: "'a list \<Rightarrow> int option" where
  "sql_count xs = Some (int (length xs))"

definition sql_max :: "int list \<Rightarrow> int option" where
  "sql_max xs = (case xs of [] \<Rightarrow> None | x # ys \<Rightarrow> Some (fold max ys x))"

fun int64_total :: "int \<Rightarrow> int list \<Rightarrow> int option" where
  "int64_total acc [] = Some acc"
| "int64_total acc (x # xs) =
     (if - (2 ^ 63) \<le> acc + x \<and> acc + x < 2 ^ 63 then int64_total (acc + x) xs else None)"

definition sql_sum :: "int list \<Rightarrow> exn + int option" where
  "sql_sum xs =
     (case xs of
        [] \<Rightarrow> Inr None
      | _ # _ \<Rightarrow>
          (case int64_total 0 xs of
             None \<Rightarrow> Inl OperationalError
           | Some n \<Rightarrow> Inr (Some n)))"

text \<open>
  \<^verbatim>\<open>avg\<close> is the floating-point quotient of a floating-point total of the column and the
  count. While every value and every running total is an integer of magnitude at most
  \<open>2 ^ 53\<close>, all of them are floats, and the total is the exact sum whatever the order and
  the method of the additions. Beyond that, the total that \<^verbatim>\<open>avg\<close> arrives at depends on
  the version of the engine (one rounding of the exact 64-bit sum, or one rounding per
  addition, or a compensated sum once 64 bits are exceeded); there it is a parameter
  \<open>float_total\<close> of the model. \<^verbatim>\<open>avg\<close> never fails.
\<close>

fun exact_total :: "int \<Rightarrow> int list \<Rightarrow> bool" where
  "exact_total acc [] = True"
| "exact_total acc (x # xs) =
     (\<bar>x\<bar> \<le> 2 ^ 53 \<and> \<bar>acc + x\<bar> \<le> 2 ^ 53 \<and> exact_total (acc + x) xs)"

definition sql_avg :: "(int list \<Rightarrow> rat) \<Rightarrow> int list \<Rightarrow> rat option" where
  "sql_avg float_total xs =
     (case xs of
        [] \<Rightarrow> None
      | _ # _ \<Rightarrow>
          (let total = (if exact_total 0 xs then of_int (sum_list xs) else float_total xs)
           in Some (to_double (total / to_double (of_int (int (length xs)))))))"

text \<open>Python's \<^verbatim>\<open>value or default\<close> on a scalar that may be \<^verbatim>\<open>None\<close>: \<^verbatim>\<open>None\<close> and zero are
  both falsy.\<close>

definition or_default :: "'a::zero option \<Rightarrow> 'a \<Rightarrow> 'a" where
  "or_default v d = (case v of None \<Rightarrow> d | Some x \<Rightarrow> if x = 0 then d else x)"

text \<open>\<^verbatim>\<open>routers/scores.py\<close>, \<^verbatim>\<open>get_stats\<close>: the five queries in their order. There is no
  \<^verbatim>\<open>try\<close>: the exception of the \<^verbatim>\<open>sum\<close> query escapes the handler.\<close>

definition get_stats ::
  "(int list \<Rightarrow> rat) \<Rightarrow> Session \<Rightarrow> (error + StatsResponse) \<times> Session" where
  "get_stats float_total db =
     (let total = or_default (sql_count (map score_id (table db))) 0
      in if total = 0 then
           (Inr \<lparr>total_games = 0, best_score = 0, average_score = 0,
                 total_play_time_seconds = 0, longest_snake = 0\<rparr>, db)
         else
           (let best = or_default (sql_max (map score (table db))) 0;
                average = or_default (sql_avg float_total (map score (table db))) 0
            in case sql_sum (map duration_seconds (table db)) of
                 Inl e \<Rightarrow> (Inl (InternalServerError e), db)
               | Inr s \<Rightarrow>
                   (let total_time = or_default s 0;
                        longest = or_default (sql_max (map snake_length (table db))) 0
                    in (Inr \<lparr>total_games = total, best_score = best,
                              average_score = py_round average 1,
                              total_play_time_seconds = total_time,
                              longest_snake = longest\<rparr>, db))))"

text \<open>The endpoint \<^verbatim>\<open>GET /api/stats\<close>, in a session of its own.\<close>

definition get_stats_endpoint ::
  "(int list \<Rightarrow> rat) \<Rightarrow> Score list \<Rightarrow> (error + StatsResponse) \<times> Score list" where
  "get_stats_endpoint float_total t =
     (let (res, db) = get_stats float_total (get_db t) in (res, close db))"

text \<open>One value of the parameter \<open>float_total\<close>, used in the worked examples: the exact
  sum rounded once.\<close>

definition rounded_total :: "int list \<Rightarrow> rat" where
  "rounded_total xs = to_double (of_int (sum_list xs))"

text \<open>The rounding rule as the specification words it: to \<open>ndigits\<close> decimal places,
  a tie going away from zero.\<close>

definition spec_round_half_away :: "rat \<Rightarrow> nat \<Rightarrow> rat" where
  "spec_round_half_away x ndigits =
     sgn x * of_int \<lfloor>\<bar>x\<bar> * 10 ^ ndigits + 1 / 2\<rfloor> / 10 ^ ndigits"

section \<open>Example data\<close>

text \<open>A row for the worked examples: its key, score, snake length and duration; the name is
  one letter chosen by the key, and the creation time is the key.\<close>

definition example_row :: "int \<Rightarrow> int \<Rightarrow> int \<Rightarrow> int \<Rightarrow> Score" where
  "example_row i s l d =
     \<lparr>score_id = i, player_name = [64 + nat i], score = s, snake_length = l,
      duration_seconds = d, created_at = i\<rparr>"

section \<open>Creating a score: validation and atomicity\<close>

subsection \<open>The generated key is fresh, and the new row is read back\<close>

lemma fold_max_ge_init: "(a::int) \<le> fold max xs a"
  by (induction xs arbitrary: a) (auto intro: order_trans [OF max.cobounded2])

lemma fold_max_ge_member: "(x::int) \<in> set xs \<Longrightarrow> x \<le> fold max xs a"
proof (induction xs arbitrary: a)
  case Nil
  then show ?case by simp
next
  case (Cons y ys)
  show ?case
  proof (cases "x = y")
    case True
    have "y \<le> max y a" by simp
    also have "\<dots> \<le> fold max ys (max y a)" by (rule fold_max_ge_init)
    finally show ?thesis using True by simp
  next
    case False
    with Cons.prems have "x \<in> set ys" by simp
    then show ?thesis using Cons.IH by simp
  qed
qed

lemma next_id_fresh: "r \<in> set t \<Longrightarrow> score_id r < next_id t"
  using fold_max_ge_member [of "score_id r" "map score_id t" 0]
  by (simp add: next_id_def)

lemma find_append_None: "find P xs = None \<Longrightarrow> find P (xs @ ys) = find P ys"
  by (induction xs) (auto split: if_splits)

lemma find_new_row:
  assumes "score_id row = next_id t"
  shows "find (\<lambda>r. score_id r = score_id row) (t @ [row]) = Some row"
proof -
  have "\<forall>r \<in> set t. score_id r \<noteq> score_id row"
    using assms next_id_fresh by fastforce
  then have "find (\<lambda>r. score_id r = score_id row) t = None"
    by (simp add: find_None_iff)
  then show ?thesis by (simp add: find_append_None)
qed

lemma create_score_unfold:
  "create_score env score_data (get_db t) =
     (let row = insert_row (utcnow env) t score_data
      in case commit_fault env of
           Some e \<Rightarrow> (Inl (HTTPException 500 (detail_prefix @ e)), get_db t)
         | None \<Rightarrow>
             (case refresh_fault env of
                Some e \<Rightarrow> (Inl (HTTPException 500 (detail_prefix @ e)), get_db (t @ [row]))
              | None \<Rightarrow> (Inr row, get_db (t @ [row]))))"
proof -
  let ?row = "insert_row (utcnow env) t score_data"
  have id: "score_id ?row = next_id t" by (simp add: insert_row_def)
  show ?thesis
    using find_new_row [OF id]
    by (simp add: create_score_def add_def commit_def rollback_def refresh_def get_db_def
        Let_def split: option.splits)
qed

lemma post_scores_valid:
  assumes "validate req = Inr score_data"
  shows "post_scores env req t =
     (let row = insert_row (utcnow env) t score_data
      in case commit_fault env of
           Some e \<Rightarrow> (Inl (HTTPException 500 (detail_prefix @ e)), t)
         | None \<Rightarrow>
             (case refresh_fault env of
                Some e \<Rightarrow> (Inl (HTTPException 500 (detail_prefix @ e)), t @ [row])
              | None \<Rightarrow> (Inr row, t @ [row])))"
proof -
  have "post_scores env req t =
          (let (res, db) = create_score env score_data (get_db t) in (res, close db))"
    using assms by (simp add: post_scores_def)
  also have "\<dots> = (let row = insert_row (utcnow env) t score_data
      in case commit_fault env of
           Some e \<Rightarrow> (Inl (HTTPException 500 (detail_prefix @ e)), t)
         | None \<Rightarrow>
             (case refresh_fault env of
                Some e \<Rightarrow> (Inl (HTTPException 500 (detail_prefix @ e)), t @ [row])
              | None \<Rightarrow> (Inr row, t @ [row])))"
    by (simp add: create_score_unfold Let_def close_def split: option.splits)
      (simp add: get_db_def)
  finally show ?thesis .
qed

subsection \<open>Rejected requests\<close>

lemma validate_Inl:
  assumes "check_int ''score'' 0 None (r_score req) = a"
    and "check_int ''snake_length'' 1 (Some 3) (r_snake_length req) = b"
    and "check_int ''duration_seconds'' 0 (Some 0) (r_duration_seconds req) = c"
    and "check_player_name (r_player_name req) = d"
    and "isl a \<or> isl b \<or> isl c \<or> isl d"
  shows "validate req = Inl (errors_of a @ errors_of b @ errors_of c @ errors_of d)"
  using assms by (cases a; cases b; cases c; cases d) (simp_all add: validate_def)

text \<open>
  Claim C2. A creation request with a negative score, a snake length below 1, a negative
  duration or a player name of more than 100 characters is answered with a validation
  error that lists the offending field (every offending field, when there are several),
  and the table is left as it was.
\<close>

theorem create_score_rejects_invalid_input:
  assumes "(\<exists>s. r_score req = Some s \<and> s < 0) \<or>
           (\<exists>l. r_snake_length req = Some l \<and> l < 1) \<or>
           (\<exists>d. r_duration_seconds req = Some d \<and> d < 0) \<or>
           (\<exists>n. r_player_name req = Str n \<and> 100 < length n)"
  shows "\<exists>errs. post_scores env req t = (Inl (RequestValidationError errs), t) \<and>
           ((\<exists>s. r_score req = Some s \<and> s < 0) \<longrightarrow>
              (''score'', greater_than_equal 0) \<in> set errs) \<and>
           ((\<exists>l. r_snake_length req = Some l \<and> l < 1) \<longrightarrow>
              (''snake_length'', greater_than_equal 1) \<in> set errs) \<and>
           ((\<exists>d. r_duration_seconds req = Some d \<and> d < 0) \<longrightarrow>
              (''duration_seconds'', greater_than_equal 0) \<in> set errs) \<and>
           ((\<exists>n. r_player_name req = Str n \<and> 100 < length n) \<longrightarrow>
              (''player_name'', string_too_long 100) \<in> set errs)"
proof -
  let ?a = "check_int ''score'' 0 None (r_score req)"
  let ?b = "check_int ''snake_length'' 1 (Some 3) (r_snake_length req)"
  let ?c = "check_int ''duration_seconds'' 0 (Some 0) (r_duration_seconds req)"
  let ?d = "check_player_name (r_player_name req)"
  let ?errs = "errors_of ?a @ errors_of ?b @ errors_of ?c @ errors_of ?d"
  have a: "(''score'', greater_than_equal 0) \<in> set (errors_of ?a) \<and> isl ?a"
    if "\<exists>s. r_score req = Some s \<and> s < 0"
    using that by (auto simp: check_int_def errors_of_def)
  have b: "(''snake_length'', greater_than_equal 1) \<in> set (errors_of ?b) \<and> isl ?b"
    if "\<exists>l. r_snake_length req = Some l \<and> l < 1"
    using that by (auto simp: check_int_def errors_of_def)
  have c: "(''duration_seconds'', greater_than_equal 0) \<in> set (errors_of ?c) \<and> isl ?c"
    if "\<exists>d. r_duration_seconds req = Some d \<and> d < 0"
    using that by (auto simp: check_int_def errors_of_def)
  have d: "(''player_name'', string_too_long 100) \<in> set (errors_of ?d) \<and> isl ?d"
    if "\<exists>n. r_player_name req = Str n \<and> 100 < length n"
    using that by (auto simp: check_player_name_def errors_of_def)
  from assms a b c d have "isl ?a \<or> isl ?b \<or> isl ?c \<or> isl ?d"
    by blast
  then have "validate req = Inl ?errs"
    by (intro validate_Inl) simp_all
  then have "post_scores env req t = (Inl (RequestValidationError ?errs), t)"
    by (simp add: post_scores_def)
  moreover have "(\<exists>s. r_score req = Some s \<and> s < 0) \<longrightarrow>
      (''score'', greater_than_equal 0) \<in> set ?errs"
    using a by simp
  moreover have "(\<exists>l. r_snake_length req = Some l \<and> l < 1) \<longrightarrow>
      (''snake_length'', greater_than_equal 1) \<in> set ?errs"
    using b by simp
  moreover have "(\<exists>d. r_duration_seconds req = Some d \<and> d < 0) \<longrightarrow>
      (''duration_seconds'', greater_than_equal 0) \<in> set ?errs"
    using c by simp
  moreover have "(\<exists>n. r_player_name req = Str n \<and> 100 < length n) \<longrightarrow>
      (''player_name'', string_too_long 100) \<in> set ?errs"
    using d by simp
  ultimately show ?thesis by blast
qed

theorem create_score_rejects_invalid_input_witness:
  "\<exists>errs. post_scores \<lparr>utcnow = 0, commit_fault = None, refresh_fault = None\<rparr>
            \<lparr>r_score = Some (- 1), r_snake_length = Some 0, r_duration_seconds = None,
             r_player_name = Str (replicate 101 65)\<rparr> []
          = (Inl (RequestValidationError errs), []) \<and>
          (''score'', greater_than_equal 0) \<in> set errs \<and>
          (''snake_length'', greater_than_equal 1) \<in> set errs \<and>
          (''player_name'', string_too_long 100) \<in> set errs"
  using create_score_rejects_invalid_input
    [of "\<lparr>r_score = Some (- 1), r_snake_length = Some 0, r_duration_seconds = None,
          r_player_name = Str (replicate 101 65)\<rparr>"
        "\<lparr>utcnow = 0, commit_fault = None, refresh_fault = None\<rparr>" "[]"]
  by simp

subsection \<open>Storage faults and success\<close>

text \<open>
  For a valid creation request: when the store fails in \<^verbatim>\<open>commit\<close>, the table afterwards is
  the table before (nothing of the attempted row is visible) and the caller gets the 500
  answer whose detail is a readable sentence followed by the cause; when nothing fails, the
  caller gets the stored row with all six fields, among them the key generated by the
  store, which no earlier row has, and the creation time, and that row is the one appended
  to the table.
\<close>

lemma create_score_commit_fault_or_success:
  assumes "validate req = Inr score_data"
  shows "(\<forall>e. commit_fault env = Some e \<longrightarrow>
            post_scores env req t = (Inl (HTTPException 500 (detail_prefix @ e)), t)) \<and>
         (commit_fault env = None \<and> refresh_fault env = None \<longrightarrow>
            post_scores env req t =
              (Inr \<lparr>score_id = next_id t,
                    player_name = (case sc_player_name score_data of
                                     None \<Rightarrow> Player | Some n \<Rightarrow> n),
                    score = sc_score score_data,
                    snake_length = sc_snake_length score_data,
                    duration_seconds = sc_duration_seconds score_data,
                    created_at = utcnow env\<rparr>,
               t @ [\<lparr>score_id = next_id t,
                     player_name = (case sc_player_name score_data of
                                      None \<Rightarrow> Player | Some n \<Rightarrow> n),
                     score = sc_score score_data,
                     snake_length = sc_snake_length score_data,
                     duration_seconds = sc_duration_seconds score_data,
                     created_at = utcnow env\<rparr>]) \<and>
            next_id t \<notin> score_id ` set t)"
proof -
  have "next_id t \<notin> score_id ` set t"
    using next_id_fresh by fastforce
  then show ?thesis
    by (simp add: post_scores_valid [OF assms] insert_row_def Let_def)
qed

lemma create_score_commit_fault_or_success_example:
  "post_scores \<lparr>utcnow = 7, commit_fault = Some [66, 85, 83, 89], refresh_fault = None\<rparr>
      \<lparr>r_score = Some 5, r_snake_length = None, r_duration_seconds = None,
       r_player_name = Omitted\<rparr> [example_row 1 50 3 0]
     = (Inl (HTTPException 500 (detail_prefix @ [66, 85, 83, 89])), [example_row 1 50 3 0]) \<and>
   post_scores \<lparr>utcnow = 7, commit_fault = None, refresh_fault = None\<rparr>
      \<lparr>r_score = Some 5, r_snake_length = None, r_duration_seconds = None,
       r_player_name = Omitted\<rparr> [example_row 1 50 3 0]
     = (Inr \<lparr>score_id = 2, player_name = Player, score = 5, snake_length = 3,
             duration_seconds = 0, created_at = 7\<rparr>,
        [example_row 1 50 3 0,
         \<lparr>score_id = 2, player_name = Player, score = 5, snake_length = 3,
          duration_seconds = 0, created_at = 7\<rparr>])"
proof -
  let ?req = "\<lparr>r_score = Some 5, r_snake_length = None, r_duration_seconds = None,
               r_player_name = Omitted\<rparr>"
  let ?sd = "\<lparr>sc_score = 5, sc_snake_length = 3, sc_duration_seconds = 0,
              sc_player_name = Some Player\<rparr>"
  have v: "validate ?req = Inr ?sd"
    by (simp add: validate_def check_int_def check_player_name_def)
  have n: "next_id [example_row 1 50 3 0] = 2"
    by (simp add: next_id_def example_row_def)
  show ?thesis
    using create_score_commit_fault_or_success [OF v,
        of "\<lparr>utcnow = 7, commit_fault = Some [66, 85, 83, 89], refresh_fault = None\<rparr>"
           "[example_row 1 50 3 0]"]
      create_score_commit_fault_or_success [OF v,
        of "\<lparr>utcnow = 7, commit_fault = None, refresh_fault = None\<rparr>"
           "[example_row 1 50 3 0]"]
    by (simp add: n)
qed

text \<open>
  \<^verbatim>\<open>db.refresh\<close> stands in the same \<^verbatim>\<open>try\<close> as \<^verbatim>\<open>db.commit\<close>. When the row is written
  and the store then fails while the row is read back, the \<^verbatim>\<open>except\<close> clause runs: its
  \<^verbatim>\<open>rollback\<close> comes after the commit and undoes nothing, and the caller gets the 500
  answer that says the result could not be saved, although the complete row is in the
  table.
\<close>

lemma create_score_refresh_fault:
  assumes "validate req = Inr score_data"
    and "commit_fault env = None" and "refresh_fault env = Some e"
  shows "post_scores env req t =
           (Inl (HTTPException 500 (detail_prefix @ e)),
            t @ [insert_row (utcnow env) t score_data])"
  using assms(2,3) by (simp add: post_scores_valid [OF assms(1)])

text \<open>
  Claim C3 does not hold of the code: a storage fault in \<^verbatim>\<open>db.refresh\<close>, after a
  successful \<^verbatim>\<open>db.commit\<close>, surfaces as the failure to save, but the write is not rolled
  back. Here the store holds one row, the request is valid, the commit succeeds and the
  read-back fails: the answer is the 500 failure and the table has the new row.
\<close>

theorem create_score_refresh_fault_row_stored:
  "post_scores \<lparr>utcnow = 7, commit_fault = None, refresh_fault = Some [66, 85, 83, 89]\<rparr>
      \<lparr>r_score = Some 5, r_snake_length = None, r_duration_seconds = None,
       r_player_name = Omitted\<rparr> [example_row 1 50 3 0]
     = (Inl (HTTPException 500 (detail_prefix @ [66, 85, 83, 89])),
        [example_row 1 50 3 0,
         \<lparr>score_id = 2, player_name = Player, score = 5, snake_length = 3,
          duration_seconds = 0, created_at = 7\<rparr>])"
proof -
  have v: "validate \<lparr>r_score = Some 5, r_snake_length = None, r_duration_seconds = None,
                     r_player_name = Omitted\<rparr> =
           Inr \<lparr>sc_score = 5, sc_snake_length = 3, sc_duration_seconds = 0,
                sc_player_name = Some Player\<rparr>"
    by (simp add: validate_def check_int_def check_player_name_def)
  have n: "next_id [example_row 1 50 3 0] = 2"
    by (simp add: next_id_def example_row_def)
  show ?thesis
    by (simp add: create_score_refresh_fault [OF v] insert_row_def n)
qed

section \<open>The read operations leave the store alone\<close>

text \<open>
  Claim C10. The leaderboard and the statistics endpoints never modify the store: for every
  table and every limit, the table after the call is the table before it, row for row,
  whether the call answers or fails.
\<close>

theorem reads_do_not_modify_store:
  "snd (get_leaderboard_endpoint limit t) = t \<and> snd (get_stats_endpoint float_total t) = t"
  by (simp add: get_leaderboard_endpoint_def get_leaderboard_def get_stats_endpoint_def
      get_stats_def get_db_def close_def Let_def split: sum.splits)

text \<open>
  Claim C9. Calling the leaderboard twice with the same limit, or the statistics twice, with
  no write in between gives the same answer: the second call runs on the store the first
  call left behind.
\<close>

theorem reads_idempotent:
  "fst (get_leaderboard_endpoint limit (snd (get_leaderboard_endpoint limit t))) =
     fst (get_leaderboard_endpoint limit t) \<and>
   fst (get_stats_endpoint float_total (snd (get_stats_endpoint float_total t))) =
     fst (get_stats_endpoint float_total t)"
  by (simp add: get_leaderboard_endpoint_def get_leaderboard_def get_stats_endpoint_def
      get_stats_def get_db_def close_def Let_def split: sum.splits)

section \<open>Statistics of an empty store\<close>

text \<open>
  Claim C4. On an empty store the statistics are exactly zero games, best score 0, average
  0.0, play time 0 and longest snake 0, and the call does not fail: the count is tested
  before any average is taken, so nothing is divided by zero.
\<close>

theorem get_stats_empty_store:
  "get_stats_endpoint float_total [] =
     (Inr \<lparr>total_games = 0, best_score = 0, average_score = 0,
           total_play_time_seconds = 0, longest_snake = 0\<rparr>, [])"
  by (simp add: get_stats_endpoint_def get_stats_def get_db_def close_def sql_count_def
      or_default_def)

section \<open>The leaderboard: ranking, ties and the limit\<close>

subsection \<open>Ranks are positions\<close>

lemma rank_entries_length: "length (rank_entries scores) = length scores"
  by (simp add: rank_entries_def)

lemma rank_entries_nth:
  assumes "i < length scores"
  shows "rank_entries scores ! i =
           \<lparr>rank = int i + 1, le_player_name = player_name (scores ! i),
            le_score = score (scores ! i), le_created_at = created_at (scores ! i)\<rparr>"
  using assms by (simp add: rank_entries_def nth_enumerate_eq)


lemma rank_entries_ranks:
  "map rank (rank_entries rows) = map int [1..<Suc (length rows)]"
  by (rule nth_equalityI)
    (simp_all add: rank_entries_length rank_entries_nth nth_upt del: upt_Suc)

text \<open>
  Claim C5. The ranking step gives the entry at (0-based) index \<open>i\<close> of its input the
  rank \<open>i + 1\<close> and the name, score and creation time of the row at that index, whatever
  the scores are: the rank is never computed from the score, so two rows with the same
  score at positions 3 and 4 get the ranks 3 and 4.
\<close>

theorem rank_is_position:
  "length (rank_entries scores) = length scores \<and>
   (\<forall>i < length scores.
      rank (rank_entries scores ! i) = int i + 1 \<and>
      le_player_name (rank_entries scores ! i) = player_name (scores ! i) \<and>
      le_score (rank_entries scores ! i) = score (scores ! i) \<and>
      le_created_at (rank_entries scores ! i) = created_at (scores ! i))"
  by (simp add: rank_entries_length rank_entries_nth)

theorem rank_is_position_witness:
  "rank (rank_entries [example_row 1 90 3 0, example_row 2 80 3 0, example_row 3 70 3 0,
                       example_row 4 70 3 0] ! 2) = 3 \<and>
   rank (rank_entries [example_row 1 90 3 0, example_row 2 80 3 0, example_row 3 70 3 0,
                       example_row 4 70 3 0] ! 3) = 4 \<and>
   le_score (rank_entries [example_row 1 90 3 0, example_row 2 80 3 0, example_row 3 70 3 0,
                       example_row 4 70 3 0] ! 2) = 70 \<and>
   le_score (rank_entries [example_row 1 90 3 0, example_row 2 80 3 0, example_row 3 70 3 0,
                       example_row 4 70 3 0] ! 3) = 70"
proof -
  let ?xs = "[example_row 1 90 3 0, example_row 2 80 3 0, example_row 3 70 3 0,
              example_row 4 70 3 0]"
  have a: "(2::nat) < length ?xs" and b: "(3::nat) < length ?xs" by simp_all
  from rank_is_position [of ?xs] a b
  have "rank (rank_entries ?xs ! 2) = int 2 + 1 \<and> le_score (rank_entries ?xs ! 2) = score (?xs ! 2)"
    and "rank (rank_entries ?xs ! 3) = int 3 + 1 \<and> le_score (rank_entries ?xs ! 3) = score (?xs ! 3)"
    by blast+
  then show ?thesis by (simp add: example_row_def)
qed

subsection \<open>The limit\<close>

lemma get_leaderboard_endpoint_eq:
  "get_leaderboard_endpoint limit t =
     (case sql_limit limit (order_by_score_desc t) of
        Inl e \<Rightarrow> Inl (InternalServerError e)
      | Inr scores \<Rightarrow> Inr (rank_entries scores), t)"
  by (simp add: get_leaderboard_endpoint_def get_leaderboard_def get_db_def close_def Let_def
      split: sum.splits)

text \<open>
  Claim C6, as stated, fails: the limit is handed to the store as it is, and a negative
  limit is no limit at all. With the limit \<open>-1\<close> and one stored row the leaderboard is
  not empty.
\<close>

theorem leaderboard_negative_limit_counterexample:
  "\<not> fst (get_leaderboard_endpoint (- 1) [example_row 1 50 3 0]) = Inr []"
  by (simp add: get_leaderboard_endpoint_eq sql_limit_def order_by_score_desc_def
      rank_entries_def)

text \<open>
  Claim C6, amended. With the limit 0 the leaderboard is empty, however many rows are
  stored, and nothing fails. With a negative limit that is a signed 64-bit integer the
  store applies no upper bound: the leaderboard ranks every stored row. With a limit below
  \<open>-2 ^ 63\<close> the query fails in the database driver and the call ends in an error.
\<close>

theorem leaderboard_nonpositive_limit:
  "fst (get_leaderboard_endpoint 0 t) = Inr [] \<and>
   (- (2 ^ 63) \<le> limit \<and> limit < 0 \<longrightarrow>
      fst (get_leaderboard_endpoint limit t) = Inr (rank_entries (order_by_score_desc t)) \<and>
      length (rank_entries (order_by_score_desc t)) = length t) \<and>
   (limit < - (2 ^ 63) \<longrightarrow>
      fst (get_leaderboard_endpoint limit t) = Inl (InternalServerError OverflowError))"
  by (simp add: get_leaderboard_endpoint_eq sql_limit_def order_by_score_desc_def
      rank_entries_length) (simp add: rank_entries_def)

theorem leaderboard_nonpositive_limit_witness:
  "fst (get_leaderboard_endpoint 0 [example_row 1 50 3 0, example_row 2 80 3 0]) = Inr [] \<and>
   fst (get_leaderboard_endpoint (- 5) [example_row 1 50 3 0, example_row 2 80 3 0]) =
     Inr [\<lparr>rank = 1, le_player_name = [66], le_score = 80, le_created_at = 2\<rparr>,
          \<lparr>rank = 2, le_player_name = [65], le_score = 50, le_created_at = 1\<rparr>] \<and>
   fst (get_leaderboard_endpoint (- 9223372036854775809)
          [example_row 1 50 3 0, example_row 2 80 3 0]) =
     Inl (InternalServerError OverflowError)"
proof -
  let ?t = "[example_row 1 50 3 0, example_row 2 80 3 0]"
  have a: "- (2 ^ 63) \<le> (- 5 :: int) \<and> (- 5 :: int) < 0" by simp
  have b: "(- 9223372036854775809 :: int) < - (2 ^ 63)" by simp
  have r: "rank_entries (order_by_score_desc ?t) =
      [\<lparr>rank = 1, le_player_name = [66], le_score = 80, le_created_at = 2\<rparr>,
       \<lparr>rank = 2, le_player_name = [65], le_score = 50, le_created_at = 1\<rparr>]"
    by (simp add: order_by_score_desc_def rank_entries_def example_row_def)
  from leaderboard_nonpositive_limit [of ?t "- 5"] a
  have 1: "fst (get_leaderboard_endpoint 0 ?t) = Inr []"
    and 2: "fst (get_leaderboard_endpoint (- 5) ?t) = Inr (rank_entries (order_by_score_desc ?t))"
    by blast+
  from leaderboard_nonpositive_limit [of ?t "- 9223372036854775809"] b
  have 3: "fst (get_leaderboard_endpoint (- 9223372036854775809) ?t) =
      Inl (InternalServerError OverflowError)"
    by blast
  from 1 2 3 show ?thesis by (simp only: r)
qed

subsection \<open>Ties\<close>






section \<open>The player name of a stored row\<close>

lemma validate_player_name:
  assumes "validate req = Inr score_data"
  shows "sc_player_name score_data =
           (case r_player_name req of
              Omitted \<Rightarrow> Some Player | Null \<Rightarrow> None | Str n \<Rightarrow> Some n) \<and>
         (\<forall>n. r_player_name req = Str n \<longrightarrow> length n \<le> 100)"
proof -
  have "check_player_name (r_player_name req) = Inr (sc_player_name score_data)"
    using assms
    by (cases "check_int ''score'' 0 None (r_score req)";
        cases "check_int ''snake_length'' 1 (Some 3) (r_snake_length req)";
        cases "check_int ''duration_seconds'' 0 (Some 0) (r_duration_seconds req)";
        cases "check_player_name (r_player_name req)")
      (auto simp: validate_def)
  then show ?thesis
    by (auto simp: check_player_name_def split: json_name.splits if_splits)
qed

lemma inserted_player_name:
  assumes "validate req = Inr score_data"
  shows "player_name (insert_row now t score_data) =
           (case r_player_name req of Omitted \<Rightarrow> Player | Null \<Rightarrow> Player | Str n \<Rightarrow> n) \<and>
         length (player_name (insert_row now t score_data)) \<le> 100"
  using validate_player_name [OF assms]
  by (auto simp: insert_row_def Player_def split: json_name.splits)

lemma post_scores_table:
  "snd (post_scores env req t) = t \<or>
   (\<exists>score_data. validate req = Inr score_data \<and>
      snd (post_scores env req t) = t @ [insert_row (utcnow env) t score_data])"
proof (cases "validate req")
  case (Inl errs)
  then show ?thesis by (simp add: post_scores_def)
next
  case (Inr score_data)
  then show ?thesis
    by (simp add: post_scores_valid [OF Inr] Let_def split: option.splits)
qed

text \<open>
  Claim C8, as stated, fails: nothing checks that the name is non-empty. A request whose
  \<^verbatim>\<open>player_name\<close> is the empty string passes validation, and the row is stored with the
  empty name.
\<close>

theorem empty_player_name_counterexample:
  "map player_name
     (snd (post_scores \<lparr>utcnow = 7, commit_fault = None, refresh_fault = None\<rparr>
             \<lparr>r_score = Some 5, r_snake_length = None, r_duration_seconds = None,
              r_player_name = Str []\<rparr> [])) = [[]]"
proof -
  have "validate \<lparr>r_score = Some 5, r_snake_length = None, r_duration_seconds = None,
                  r_player_name = Str []\<rparr> =
        Inr \<lparr>sc_score = 5, sc_snake_length = 3, sc_duration_seconds = 0,
             sc_player_name = Some []\<rparr>"
    by (simp add: validate_def check_int_def check_player_name_def)
  then show ?thesis
    by (simp add: post_scores_valid insert_row_def Let_def)
qed

text \<open>
  Claim C8, amended. Validation keeps the bound of 100 characters on the player name of
  every stored row: when it holds in the table before a creation request, it holds in the
  table after it, whatever the request and whatever the store does. When the request leaves
  the name out, the row that is returned and stored has the name \<^verbatim>\<open>"Player"\<close>.
\<close>

theorem stored_player_name_constraints:
  assumes "\<forall>r \<in> set t. length (player_name r) \<le> 100"
  shows "(\<forall>r \<in> set (snd (post_scores env req t)). length (player_name r) \<le> 100) \<and>
         (\<forall>r. r_player_name req = Omitted \<and> fst (post_scores env req t) = Inr r \<longrightarrow>
              player_name r = Player \<and> r \<in> set (snd (post_scores env req t)))"
proof -
  have 1: "\<forall>r \<in> set (snd (post_scores env req t)). length (player_name r) \<le> 100"
    using post_scores_table [of env req t]
  proof (elim disjE exE conjE)
    assume "snd (post_scores env req t) = t"
    with assms show ?thesis by simp
  next
    fix score_data
    assume v: "validate req = Inr score_data"
      and s: "snd (post_scores env req t) = t @ [insert_row (utcnow env) t score_data]"
    from inserted_player_name [OF v, of "utcnow env" t, THEN conjunct2] assms show ?thesis
      by (simp add: s)
  qed
  have 2: "player_name r = Player \<and> r \<in> set (snd (post_scores env req t))"
    if "r_player_name req = Omitted" and "fst (post_scores env req t) = Inr r" for r
  proof (cases "validate req")
    case (Inl errs)
    with that(2) show ?thesis by (simp add: post_scores_def)
  next
    case (Inr score_data)
    from that(2) have "r = insert_row (utcnow env) t score_data \<and>
        snd (post_scores env req t) = t @ [r]"
      by (auto simp: post_scores_valid [OF Inr] Let_def split: option.splits)
    with inserted_player_name [OF Inr, of "utcnow env" t] that(1) show ?thesis
      by simp
  qed
  from 1 2 show ?thesis by blast
qed

theorem stored_player_name_constraints_witness:
  "fst (post_scores \<lparr>utcnow = 7, commit_fault = None, refresh_fault = None\<rparr>
          \<lparr>r_score = Some 5, r_snake_length = None, r_duration_seconds = None,
           r_player_name = Omitted\<rparr> [example_row 1 50 3 0])
     = Inr \<lparr>score_id = 2, player_name = Player, score = 5, snake_length = 3,
            duration_seconds = 0, created_at = 7\<rparr> \<and>
   map player_name
     (snd (post_scores \<lparr>utcnow = 7, commit_fault = None, refresh_fault = None\<rparr>
             \<lparr>r_score = Some 5, r_snake_length = None, r_duration_seconds = None,
              r_player_name = Omitted\<rparr> [example_row 1 50 3 0])) = [[65], Player] \<and>
   list_all (\<lambda>r. length (player_name r) \<le> 100)
     (snd (post_scores \<lparr>utcnow = 7, commit_fault = None, refresh_fault = None\<rparr>
             \<lparr>r_score = Some 5, r_snake_length = None, r_duration_seconds = None,
              r_player_name = Omitted\<rparr> [example_row 1 50 3 0]))"
proof -
  let ?env = "\<lparr>utcnow = 7, commit_fault = None, refresh_fault = None\<rparr>"
  let ?req = "\<lparr>r_score = Some 5, r_snake_length = None, r_duration_seconds = None,
               r_player_name = Omitted\<rparr>"
  let ?t = "[example_row 1 50 3 0]"
  have v: "validate ?req =
        Inr \<lparr>sc_score = 5, sc_snake_length = 3, sc_duration_seconds = 0,
             sc_player_name = Some Player\<rparr>"
    by (simp add: validate_def check_int_def check_player_name_def)
  have t: "\<forall>r \<in> set ?t. length (player_name r) \<le> 100"
    by (simp add: example_row_def)
  have res: "fst (post_scores ?env ?req ?t) =
      Inr \<lparr>score_id = 2, player_name = Player, score = 5, snake_length = 3,
           duration_seconds = 0, created_at = 7\<rparr>"
    by (simp add: post_scores_valid [OF v] insert_row_def example_row_def next_id_def Let_def)
  have names: "map player_name (snd (post_scores ?env ?req ?t)) = [[65], Player]"
    by (simp add: post_scores_valid [OF v] insert_row_def example_row_def Let_def)
  from stored_player_name_constraints [OF t, of ?env ?req]
  have "\<forall>r \<in> set (snd (post_scores ?env ?req ?t)). length (player_name r) \<le> 100"
    by blast
  then have "list_all (\<lambda>r. length (player_name r) \<le> 100) (snd (post_scores ?env ?req ?t))"
    by (simp only: list_all_iff)
  with res names show ?thesis by (intro conjI)
qed

section \<open>Statistics of a non-empty store\<close>

subsection \<open>Rounding\<close>

text \<open>Some values of the floating-point model: 1/4 and 20 are floats, 1/10 and 7/20 are
  not; \<^verbatim>\<open>round(0.25, 1)\<close> is 0.2, \<^verbatim>\<open>round(0.75, 1)\<close> is 0.8, and \<^verbatim>\<open>round(0.35, 1)\<close>
  is 0.3 because the float nearest to 0.35 lies below it.\<close>

lemma to_double_examples:
  "to_double (1 / 4) = 1 / 4"
  "to_double 20 = 20"
  "to_double (1 / 10) = 3602879701896397 / 36028797018963968"
  "to_double (7 / 20) = 3152519739159347 / 9007199254740992"
  "py_round (1 / 4) 1 = to_double (2 / 10)"
  "py_round (3 / 4) 1 = to_double (8 / 10)"
  "py_round (to_double (7 / 20)) 1 = to_double (3 / 10)"
  by code_simp+

lemma round_half_even_nearest: "\<bar>x - of_int (round_half_even x)\<bar> \<le> 1 / 2"
proof -
  have "of_int \<lfloor>x\<rfloor> \<le> x" "x < of_int \<lfloor>x\<rfloor> + 1" by linarith+
  then show ?thesis
    by (auto simp: round_half_even_def Let_def)
qed

lemma round_half_even_tie:
  assumes "\<bar>x - of_int (round_half_even x)\<bar> = 1 / 2"
  shows "even (round_half_even x)"
proof -
  have "of_int \<lfloor>x\<rfloor> \<le> x" "x < of_int \<lfloor>x\<rfloor> + 1" by linarith+
  with assms show ?thesis
    by (auto simp: round_half_even_def Let_def split: if_splits)
qed

text \<open>\<open>to_double\<close> is a rounding to 53 significant bits: \<open>ilog2\<close> is the binary exponent,
  the result is off by at most half a unit in the last place, and its significand has 53
  bits (or is the next power of two).\<close>

lemma bit_length_bounds:
  "0 < n \<Longrightarrow> 2 ^ (bit_length n - 1) \<le> n \<and> n < 2 ^ bit_length n"
proof (induction n rule: bit_length.induct)
  case (1 n)
  show ?case
  proof (cases "n div 2 = 0")
    case True
    with "1.prems" have "n = 1" by (simp add: div_eq_0_iff) 
    then show ?thesis by (simp add: bit_length.simps)
  next
    case False
    then have pos: "0 < n div 2" by simp
    let ?b = "bit_length (n div 2)"
    from "1.IH" "1.prems" pos have ih: "2 ^ (?b - 1) \<le> n div 2" "n div 2 < 2 ^ ?b"
      by simp_all
    have b: "0 < ?b" using pos by (subst bit_length.simps) simp
    have bl: "bit_length n = ?b + 1" using "1.prems" by (subst bit_length.simps) simp
    have "(2::nat) ^ ?b = 2 * 2 ^ (?b - 1)" using b by (cases ?b) simp_all
    with ih(1) have lo: "2 ^ ?b \<le> n" by linarith
    from ih(2) have hi: "n < 2 * 2 ^ ?b" by linarith
    from lo hi show ?thesis by (simp add: bl)
  qed
qed

lemma pow2_pos: "0 < pow2 e"
  by (simp add: pow2_def)

lemma pow2_powi: "pow2 e = 2 powi e"
  by (simp add: pow2_def power_int_def field_simps)

lemma pow2_diff: "pow2 (int a - int b) = 2 ^ a / 2 ^ b"
  by (simp add: pow2_powi power_int_diff)

lemma pow2_Suc: "pow2 (e + 1) = 2 * pow2 e"
  by (simp add: pow2_powi power_int_add)

lemma ilog2_bounds:
  assumes "0 < q"
  shows "pow2 (ilog2 q) \<le> q \<and> q < pow2 (ilog2 q + 1)"
proof -
  obtain p d where pd: "quotient_of q = (p, d)" by (cases "quotient_of q")
  then have d: "0 < d" and q: "q = of_int p / of_int d"
    by (simp_all add: quotient_of_denom_pos quotient_of_div)
  from assms q d have p: "0 < p" by (simp add: zero_less_divide_iff)
  let ?bp = "bit_length (nat p)" and ?bd = "bit_length (nat d)"
  let ?k = "int ?bp - int ?bd"
  from bit_length_bounds [of "nat p"] p
  have p1: "2 ^ (?bp - 1) \<le> nat p" and p2: "nat p < 2 ^ ?bp" by simp_all
  from bit_length_bounds [of "nat d"] d
  have d1: "2 ^ (?bd - 1) \<le> nat d" and d2: "nat d < 2 ^ ?bd" by simp_all
  have bp: "0 < ?bp" using p by (subst bit_length.simps) simp
  have bd: "0 < ?bd" using d by (subst bit_length.simps) simp
  have rp1: "(2::rat) ^ (?bp - 1) \<le> of_int p"
    using p1 p by (metis of_nat_le_iff of_nat_numeral of_nat_power of_int_of_nat_eq nat_0_le less_imp_le)
  have rp2: "(of_int p :: rat) < 2 ^ ?bp"
    using p2 p by (metis of_nat_less_iff of_nat_numeral of_nat_power of_int_of_nat_eq nat_0_le less_imp_le)
  have rd1: "(2::rat) ^ (?bd - 1) \<le> of_int d"
    using d1 d by (metis of_nat_le_iff of_nat_numeral of_nat_power of_int_of_nat_eq nat_0_le less_imp_le)
  have rd2: "(of_int d :: rat) < 2 ^ ?bd"
    using d2 d by (metis of_nat_less_iff of_nat_numeral of_nat_power of_int_of_nat_eq nat_0_le less_imp_le)
  have rd: "(0::rat) < of_int d" using d by simp
  have il: "ilog2 q = (if pow2 ?k \<le> q then ?k else ?k - 1)"
    by (simp add: ilog2_def pd)
  have upper: "q < pow2 (?k + 1)"
  proof -
    have "q < 2 ^ ?bp / of_int d"
      unfolding q using rp2 rd by (simp add: divide_strict_right_mono)
    also have "\<dots> \<le> 2 ^ ?bp / 2 ^ (?bd - 1)"
      using rd1 by (simp add: frac_le)
    also have "\<dots> = pow2 (int ?bp - int (?bd - 1))"
      by (simp only: pow2_diff)
    also have "int ?bp - int (?bd - 1) = ?k + 1" using bd by simp
    finally show ?thesis .
  qed
  have lower: "pow2 (?k - 1) \<le> q"
  proof -
    have "pow2 (?k - 1) = pow2 (int (?bp - 1) - int ?bd)"
      using bp by (simp add: algebra_simps of_nat_diff)
    also have "\<dots> = 2 ^ (?bp - 1) / 2 ^ ?bd"
      by (simp only: pow2_diff)
    also have "\<dots> \<le> of_int p / 2 ^ ?bd"
      using rp1 by (simp add: divide_right_mono)
    also have "\<dots> \<le> of_int p / of_int d"
      using rd2 rd p by (simp add: frac_le)
    finally show ?thesis by (simp add: q)
  qed
  show ?thesis
  proof (cases "pow2 ?k \<le> q")
    case True
    with upper il show ?thesis by simp
  next
    case False
    then have "q < pow2 ?k" by simp
    moreover have "pow2 (?k - 1 + 1) = pow2 ?k" by simp
    ultimately show ?thesis using lower il False by simp
  qed
qed

lemma round_half_even_floor:
  "round_half_even x = \<lfloor>x\<rfloor> \<or> round_half_even x = \<lfloor>x\<rfloor> + 1"
  by (simp add: round_half_even_def Let_def)

lemma pow2_add: "pow2 (a + b) = pow2 a * pow2 b"
  by (simp add: pow2_powi power_int_add)

lemma pow2_nat: "pow2 (int n) = 2 ^ n"
  by (simp add: pow2_def)

lemma to_double_error: "\<bar>to_double q - q\<bar> \<le> pow2 (ilog2 \<bar>q\<bar> - 53)"
proof (cases "q = 0")
  case True
  then show ?thesis using pow2_pos [of "ilog2 \<bar>q\<bar> - 53"] by (simp add: to_double_def)
next
  case False
  let ?e = "ilog2 \<bar>q\<bar> - 52"
  let ?m = "round_half_even (\<bar>q\<bar> / pow2 ?e)"
  have pe: "0 < pow2 ?e" by (rule pow2_pos)
  have td: "to_double q = sgn q * of_int ?m * pow2 ?e"
    using False by (simp add: to_double_def Let_def)
  have "q = sgn q * (\<bar>q\<bar> / pow2 ?e) * pow2 ?e"
    using pe by (simp add: sgn_mult_abs)
  then have "to_double q - q = sgn q * (of_int ?m - \<bar>q\<bar> / pow2 ?e) * pow2 ?e"
    unfolding td by (simp add: algebra_simps)
  then have "\<bar>to_double q - q\<bar> = \<bar>\<bar>q\<bar> / pow2 ?e - of_int ?m\<bar> * pow2 ?e"
    using False pe by (simp add: abs_mult abs_sgn_eq abs_minus_commute)
  also have "\<dots> \<le> (1 / 2) * pow2 ?e"
    using round_half_even_nearest [of "\<bar>q\<bar> / pow2 ?e"] pe
    by (intro mult_right_mono) simp_all
  also have "\<dots> = pow2 (ilog2 \<bar>q\<bar> - 53)"
    using pow2_Suc [of "ilog2 \<bar>q\<bar> - 53"] by simp
  finally show ?thesis .
qed

lemma to_double_significand:
  assumes "q \<noteq> 0"
  shows "\<exists>m. to_double q = sgn q * of_int m * pow2 (ilog2 \<bar>q\<bar> - 52) \<and>
             2 ^ 52 \<le> m \<and> m \<le> 2 ^ 53"
proof -
  let ?e = "ilog2 \<bar>q\<bar> - 52"
  let ?x = "\<bar>q\<bar> / pow2 ?e"
  let ?m = "round_half_even ?x"
  have pe: "0 < pow2 ?e" by (rule pow2_pos)
  have td: "to_double q = sgn q * of_int ?m * pow2 ?e"
    using assms by (simp add: to_double_def Let_def)
  from assms have "0 < \<bar>q\<bar>" by simp
  from ilog2_bounds [OF this]
  have lo: "pow2 (?e + 52) \<le> \<bar>q\<bar>" and hi: "\<bar>q\<bar> < pow2 (?e + 53)"
    by (simp_all add: algebra_simps)
  have "pow2 (?e + 52) = pow2 ?e * 2 ^ 52"
    using pow2_add [of ?e "int 52"] pow2_nat [of 52] by simp
  with lo pe have x1: "2 ^ 52 \<le> ?x"
    by (simp add: pos_le_divide_eq mult.commute)
  have "pow2 (?e + 53) = pow2 ?e * 2 ^ 53"
    using pow2_add [of ?e "int 53"] pow2_nat [of 53] by simp
  with hi pe have x2: "?x < 2 ^ 53"
    by (simp add: pos_divide_less_eq mult.commute)
  have "(of_int (2 ^ 52) :: rat) \<le> ?x" using x1 by simp
  then have f1: "2 ^ 52 \<le> \<lfloor>?x\<rfloor>" by (simp only: le_floor_iff)
  have "?x < (of_int (2 ^ 53) :: rat)" using x2 by simp
  then have f2: "\<lfloor>?x\<rfloor> < 2 ^ 53" by (simp only: floor_less_iff)
  from round_half_even_floor [of ?x] f1 f2 have "2 ^ 52 \<le> ?m \<and> ?m \<le> 2 ^ 53"
    by auto
  with td show ?thesis by blast
qed

text \<open>An integer of magnitude at most \<open>2 ^ 53\<close> is a float.\<close>

lemma round_half_even_of_int: "round_half_even (of_int m) = m"
  by (simp add: round_half_even_def)

lemma pow2_less_iff: "a < b \<Longrightarrow> pow2 a < pow2 b"
  using power_int_strict_increasing [of a b "2 :: rat"] by (simp add: pow2_powi)

lemma pow2_le: "a \<le> b \<Longrightarrow> pow2 a \<le> pow2 b"
  using power_int_increasing [of a b "2 :: rat"] by (simp add: pow2_powi)

lemma to_double_of_int:
  assumes "\<bar>n\<bar> \<le> 2 ^ 53"
  shows "to_double (of_int n) = of_int n"
proof (cases "n = 0")
  case True
  then show ?thesis by (simp add: to_double_def)
next
  case False
  let ?q = "rat_of_int n"
  let ?a = "\<bar>?q\<bar>"
  let ?k = "ilog2 ?a"
  let ?e = "?k - 52"
  have a: "?a = of_int \<bar>n\<bar>" by simp
  have a1: "1 \<le> ?a" using False unfolding a by (simp del: of_int_abs add: Ints_def)
  have a2: "?a \<le> 2 ^ 53" using assms unfolding a
    by (metis of_int_le_iff of_int_numeral of_int_power)
  from a1 have "0 < ?a" by linarith
  from ilog2_bounds [OF this] have lo: "pow2 ?k \<le> ?a" and hi: "?a < pow2 (?k + 1)"
    by simp_all
  have k53: "?k \<le> 53"
  proof (rule ccontr)
    assume "\<not> ?k \<le> 53"
    then have "pow2 53 < pow2 ?k" by (intro pow2_less_iff) simp
    with lo a2 pow2_nat [of 53] show False by simp
  qed
  have k0: "0 \<le> ?k"
  proof (rule ccontr)
    assume "\<not> 0 \<le> ?k"
    then have "pow2 (?k + 1) \<le> pow2 0" by (intro pow2_le) simp
    with hi a1 show False by (simp add: pow2_def)
  qed
  have td: "to_double ?q = sgn ?q * of_int (round_half_even (?a / pow2 ?e)) * pow2 ?e"
    using False by (simp add: to_double_def Let_def)
  have "\<exists>m. ?a / pow2 ?e = of_int m"
  proof (cases "?e \<le> 0")
    case True
    then have "pow2 ?e = 1 / 2 ^ nat (- ?e)"
      by (cases "?e = 0") (simp_all add: pow2_def)
    then have "?a / pow2 ?e = of_int (\<bar>n\<bar> * 2 ^ nat (- ?e))"
      unfolding a by simp
    then show ?thesis by blast
  next
    case False
    with k53 have e1: "?e = 1" by linarith
    then have "?k = 53" by linarith
    with lo a2 pow2_nat [of 53] have top: "?a = 2 ^ 53" by simp
    have pe: "pow2 ?e = 2" by (subst e1) (simp add: pow2_def)
    have aux: "x / p = of_int (2 ^ 52)" if "x = 2 ^ 53" and "p = 2" for x p :: rat
      using that by simp
    from aux [OF top pe] show ?thesis by blast
  qed
  then obtain m where m: "?a / pow2 ?e = of_int m" by blast
  have "of_int (round_half_even (?a / pow2 ?e)) * pow2 ?e = ?a"
    using pow2_pos [of ?e] by (simp only: m round_half_even_of_int) (simp add: m [symmetric])
  then have "to_double ?q = sgn ?q * ?a"
    unfolding td by (simp only: mult.assoc)
  then show ?thesis by (simp add: sgn_mult_abs)
qed

subsection \<open>The aggregates of a non-empty table\<close>

text \<open>On a column without negative values the 64-bit accumulator of \<^verbatim>\<open>sum\<close> holds the
  exact sum as long as the sum is below \<open>2 ^ 63\<close> and overflows otherwise, and the total
  of \<^verbatim>\<open>avg\<close> is exact as long as the sum is at most \<open>2 ^ 53\<close>.\<close>

lemma int64_total_nonneg:
  assumes "\<forall>x \<in> set xs. 0 \<le> x" and "0 \<le> acc" and "acc + sum_list xs < 2 ^ 63"
  shows "int64_total acc xs = Some (acc + sum_list xs)"
  using assms
proof (induction xs arbitrary: acc)
  case Nil
  then show ?case by simp
next
  case (Cons x xs)
  from Cons.prems have x: "0 \<le> x" and xs: "\<forall>y \<in> set xs. 0 \<le> y" by simp_all
  from xs have s: "0 \<le> sum_list xs" by (simp add: sum_list_nonneg)
  from Cons.prems(3) s have b: "acc + x < 2 ^ 63" by simp
  from Cons.prems(2) x have c: "- (2 ^ 63) \<le> acc + x" by simp
  have "int64_total (acc + x) xs = Some (acc + x + sum_list xs)"
    using Cons.prems x xs by (intro Cons.IH) (simp_all add: add.assoc)
  with b c show ?case by (simp add: add.assoc)
qed

lemma exact_total_nonneg:
  assumes "\<forall>x \<in> set xs. 0 \<le> x" and "0 \<le> acc" and "acc + sum_list xs \<le> 2 ^ 53"
  shows "exact_total acc xs"
  using assms
proof (induction xs arbitrary: acc)
  case Nil
  then show ?case by simp
next
  case (Cons x xs)
  from Cons.prems have x: "0 \<le> x" and xs: "\<forall>y \<in> set xs. 0 \<le> y" by simp_all
  from xs have s: "0 \<le> sum_list xs" by (simp add: sum_list_nonneg)
  from Cons.prems(3) s have b: "acc + x \<le> 2 ^ 53" by simp
  with Cons.prems(2) x have c: "\<bar>x\<bar> \<le> 2 ^ 53" "\<bar>acc + x\<bar> \<le> 2 ^ 53" by simp_all
  have "exact_total (acc + x) xs"
    using Cons.prems x xs by (intro Cons.IH) (simp_all add: add.assoc)
  with c show ?case by simp
qed

lemma int64_total_overflow:
  assumes "\<forall>x \<in> set xs. 0 \<le> x" and "0 \<le> acc" and "2 ^ 63 \<le> acc + sum_list xs"
    and "acc < 2 ^ 63"
  shows "int64_total acc xs = None"
  using assms
proof (induction xs arbitrary: acc)
  case Nil
  then show ?case by simp
next
  case (Cons x xs)
  from Cons.prems have x: "0 \<le> x" and xs: "\<forall>y \<in> set xs. 0 \<le> y" by simp_all
  show ?case
  proof (cases "acc + x < 2 ^ 63")
    case True
    have "int64_total (acc + x) xs = None"
      using Cons.prems x xs True by (intro Cons.IH) (simp_all add: add.assoc)
    with True show ?thesis by simp
  next
    case False
    then show ?thesis by simp
  qed
qed

lemma sql_max_eq: "xs \<noteq> [] \<Longrightarrow> sql_max xs = Some (Max (set xs))"
  by (cases xs) (simp_all add: sql_max_def Max.set_eq_fold [symmetric])

lemma or_default_Some [simp]: "or_default (Some x) 0 = x"
  by (simp add: or_default_def)

lemma get_stats_endpoint_nonempty:
  assumes "t \<noteq> []"
    and "\<forall>r \<in> set t. 0 \<le> score r \<and> 0 \<le> duration_seconds r"
    and "sum_list (map score t) \<le> 2 ^ 53"
    and "int (length t) \<le> 2 ^ 53"
    and "sum_list (map duration_seconds t) < 2 ^ 63"
  shows "fst (get_stats_endpoint float_total t) =
           Inr \<lparr>total_games = int (length t),
                best_score = Max (score ` set t),
                average_score =
                  py_round (to_double (of_int (sum_list (map score t)) /
                                       of_int (int (length t)))) 1,
                total_play_time_seconds = sum_list (map duration_seconds t),
                longest_snake = Max (snake_length ` set t)\<rparr>"
proof -
  obtain r rs where t: "t = r # rs" using assms(1) by (cases t) auto
  have ex: "exact_total 0 (map score t)"
    using assms(2,3) by (intro exact_total_nonneg) simp_all
  have cnt_exact: "to_double (of_int (int (length t))) = of_int (int (length t))"
    using assms(4) by (intro to_double_of_int) simp
  have avg: "sql_avg float_total (map score t) =
      Some (to_double (of_int (sum_list (map score t)) / of_int (int (length t))))"
    unfolding sql_avg_def using ex cnt_exact by (simp add: t)
  have "int64_total 0 (map duration_seconds t) = Some (0 + sum_list (map duration_seconds t))"
    using assms(2,5) by (intro int64_total_nonneg) simp_all
  then have sum: "sql_sum (map duration_seconds t) =
      Inr (Some (sum_list (map duration_seconds t)))"
    by (simp add: sql_sum_def t)
  have mx: "sql_max (map score t) = Some (Max (score ` set t))"
    "sql_max (map snake_length t) = Some (Max (snake_length ` set t))"
    using assms(1) by (simp_all add: sql_max_eq)
  have cnt: "or_default (sql_count (map score_id t)) 0 = int (length t)"
    by (simp add: sql_count_def)
  show ?thesis
    unfolding get_stats_endpoint_def get_stats_def get_db_def close_def Let_def
    using assms(1) by (simp add: avg sum mx cnt)
qed

lemma get_stats_endpoint_overflow:
  assumes "t \<noteq> []"
    and "\<forall>r \<in> set t. 0 \<le> duration_seconds r"
    and "2 ^ 63 \<le> sum_list (map duration_seconds t)"
  shows "fst (get_stats_endpoint float_total t) = Inl (InternalServerError OperationalError)"
proof -
  obtain r rs where t: "t = r # rs" using assms(1) by (cases t) auto
  have "int64_total 0 (map duration_seconds t) = None"
    using assms(2,3) by (intro int64_total_overflow) simp_all
  then have sum: "sql_sum (map duration_seconds t) = Inl OperationalError"
    by (simp add: sql_sum_def t)
  have cnt: "or_default (sql_count (map score_id t)) 0 = int (length t)"
    by (simp add: sql_count_def)
  show ?thesis
    unfolding get_stats_endpoint_def get_stats_def get_db_def close_def Let_def
    using assms(1) by (simp add: sum cnt)
qed

text \<open>
  Claim C7, as stated, fails in its rounding rule. Four games with the scores 0, 0, 0 and 1
  have the mean 0.25, which is a float; rounded to one decimal place half away from zero
  it is 0.3, but \<^verbatim>\<open>round(0.25, 1)\<close> is 0.2, and that is the average the statistics
  report.
\<close>

theorem average_rounding_counterexample:
  "fst (get_stats_endpoint rounded_total
      [example_row 1 0 3 0, example_row 2 0 3 0, example_row 3 0 3 0, example_row 4 1 3 0])
     = Inr \<lparr>total_games = 4, best_score = 1, average_score = to_double (2 / 10),
            total_play_time_seconds = 0, longest_snake = 3\<rparr> \<and>
   rat_of_int (sum_list (map score
      [example_row 1 0 3 0, example_row 2 0 3 0, example_row 3 0 3 0, example_row 4 1 3 0])) / 4
     = 1 / 4 \<and>
   spec_round_half_away (1 / 4) 1 = 3 / 10 \<and>
   to_double (2 / 10) \<noteq> to_double (3 / 10) \<and>
   to_double (2 / 10) \<noteq> 3 / 10"
  by code_simp

text \<open>
  Claim C7, amended. Take a non-empty store whose scores and durations are not negative
  (the field constraints), with a sum of scores of at most \<open>2 ^ 53\<close>, at most
  \<open>2 ^ 53\<close> rows and a sum of durations below \<open>2 ^ 63\<close>. The statistics report the
  number of rows, the greatest score, the sum of the durations and the greatest snake
  length; the average is Python's \<^verbatim>\<open>round(mean, 1)\<close> of the floating-point mean of the
  scores: the float nearest to a number of tenths \<open>n / 10\<close>, where \<open>n\<close> is an integer
  nearest to ten times the mean, and the even one when two integers are equally near.
\<close>

theorem get_stats_nonempty:
  assumes "t \<noteq> []"
    and "\<forall>r \<in> set t. 0 \<le> score r \<and> 0 \<le> duration_seconds r"
    and "sum_list (map score t) \<le> 2 ^ 53"
    and "int (length t) \<le> 2 ^ 53"
    and "sum_list (map duration_seconds t) < 2 ^ 63"
  shows "fst (get_stats_endpoint float_total t) =
           Inr \<lparr>total_games = int (length t),
                best_score = Max (score ` set t),
                average_score =
                  py_round (to_double (of_int (sum_list (map score t)) /
                                       of_int (int (length t)))) 1,
                total_play_time_seconds = sum_list (map duration_seconds t),
                longest_snake = Max (snake_length ` set t)\<rparr> \<and>
         (\<exists>n. py_round (to_double (of_int (sum_list (map score t)) /
                                   of_int (int (length t)))) 1 = to_double (of_int n / 10) \<and>
              \<bar>10 * to_double (of_int (sum_list (map score t)) / of_int (int (length t)))
                 - of_int n\<bar> \<le> 1 / 2 \<and>
              (\<bar>10 * to_double (of_int (sum_list (map score t)) / of_int (int (length t)))
                 - of_int n\<bar> = 1 / 2 \<longrightarrow> even n))"
proof -
  let ?m = "to_double (of_int (sum_list (map score t)) / of_int (int (length t)))"
  let ?n = "round_half_even (?m * 10 ^ 1)"
  have "py_round ?m 1 = to_double (of_int ?n / 10)"
    by (simp add: py_round_def)
  moreover have "\<bar>10 * ?m - of_int ?n\<bar> \<le> 1 / 2"
    using round_half_even_nearest [of "?m * 10 ^ 1"] by (simp add: mult.commute)
  moreover have "\<bar>10 * ?m - of_int ?n\<bar> = 1 / 2 \<longrightarrow> even ?n"
    using round_half_even_tie [of "?m * 10 ^ 1"] by (simp add: mult.commute)
  ultimately have "\<exists>n. py_round ?m 1 = to_double (of_int n / 10) \<and>
      \<bar>10 * ?m - of_int n\<bar> \<le> 1 / 2 \<and> (\<bar>10 * ?m - of_int n\<bar> = 1 / 2 \<longrightarrow> even n)"
    by blast
  with get_stats_endpoint_nonempty [OF assms, of float_total] show ?thesis
    by (intro conjI)
qed

text \<open>The example of the specification: scores 10, 20, 30, durations 5, 10, 15 and
  lengths 3, 4, 10.\<close>

theorem get_stats_nonempty_witness:
  "fst (get_stats_endpoint rounded_total
      [example_row 1 10 3 5, example_row 2 20 4 10, example_row 3 30 10 15]) =
   Inr \<lparr>total_games = 3, best_score = 30, average_score = 20,
        total_play_time_seconds = 30, longest_snake = 10\<rparr>"
proof -
  let ?t = "[example_row 1 10 3 5, example_row 2 20 4 10, example_row 3 30 10 15]"
  have ne: "?t \<noteq> []" by simp
  have h1: "\<forall>r \<in> set ?t. 0 \<le> score r \<and> 0 \<le> duration_seconds r"
    by (simp add: example_row_def)
  have h2: "sum_list (map score ?t) \<le> 2 ^ 53" by (simp add: example_row_def)
  have h3: "int (length ?t) \<le> 2 ^ 53" by simp
  have h4: "sum_list (map duration_seconds ?t) < 2 ^ 63" by (simp add: example_row_def)
  have r: "py_round (to_double (of_int (sum_list (map score ?t)) / of_int (int (length ?t)))) 1
             = 20"
    by code_simp
  have rec: "\<lparr>total_games = int (length ?t),
              best_score = Max (score ` set ?t),
              average_score =
                py_round (to_double (of_int (sum_list (map score ?t)) /
                                     of_int (int (length ?t)))) 1,
              total_play_time_seconds = sum_list (map duration_seconds ?t),
              longest_snake = Max (snake_length ` set ?t)\<rparr> =
            \<lparr>total_games = 3, best_score = 30, average_score = 20,
             total_play_time_seconds = 30, longest_snake = 10\<rparr>"
    by (simp only: r) (simp add: example_row_def)
  from get_stats_nonempty [OF ne h1 h2 h3 h4, of rounded_total]
  have "fst (get_stats_endpoint rounded_total ?t) =
           Inr \<lparr>total_games = int (length ?t),
                best_score = Max (score ` set ?t),
                average_score =
                  py_round (to_double (of_int (sum_list (map score ?t)) /
                                       of_int (int (length ?t)))) 1,
                total_play_time_seconds = sum_list (map duration_seconds ?t),
                longest_snake = Max (snake_length ` set ?t)\<rparr>"
    by (rule conjunct1)
  then show ?thesis by (simp only: rec)
qed

text \<open>Beyond the bound on the durations the \<^verbatim>\<open>sum\<close> query fails, and with it the call:
  two stored games whose durations add up to \<open>2 ^ 63\<close> are enough.\<close>

lemma get_stats_overflow_example:
  "fst (get_stats_endpoint rounded_total
      [example_row 1 10 3 9223372036854775807, example_row 2 20 3 1]) =
   Inl (InternalServerError OperationalError)"
  by (intro get_stats_endpoint_overflow) (simp_all add: example_row_def)

end
